theory Spec2Isabelle
  imports Complex_Main "HOL-Library.Log_Nat"
begin

section \<open>Go arithmetic\<close>

subsection \<open>float64: finite IEEE 754 binary64 values\<close>

text \<open>
  A finite \<^verbatim>\<open>float64\<close> is the rational number it denotes. Every Go floating-point
  operation computes the exact result and rounds it to the nearest binary64 value, ties to
  the even significand; \<open>fl\<close> is that rounding (53 significant bits, gradual underflow
  below \<open>2 powi (- 1022)\<close>). Infinities and NaN have no value here: the only place where
  a result can leave the binary64 range is \<open>mmToPixels\<close>, whose conversion to
  \<^verbatim>\<open>int\<close> is out of range then in any case.
\<close>

type_synonym float64 = rat

definition ilog2 :: "rat \<Rightarrow> int" where
  "ilog2 x = (case quotient_of \<bar>x\<bar> of (p, q) \<Rightarrow>
     (let d = bitlen p - bitlen q in if 2 powi d \<le> \<bar>x\<bar> then d else d - 1))"

definition round_half_even :: "rat \<Rightarrow> int" where
  "round_half_even x = (let f = \<lfloor>x\<rfloor>; r = x - of_int f in
     if r < 1 / 2 then f else if 1 / 2 < r then f + 1 else if even f then f else f + 1)"

definition fl :: "rat \<Rightarrow> float64" where
  "fl x = (if x = 0 then 0 else
     (let e = max (ilog2 x - 52) (- 1074)
      in of_int (round_half_even (x / 2 powi e)) * 2 powi e))"

text \<open>The exponent of the rounding step of \<open>fl\<close> at \<open>x\<close>.\<close>

definition fexp :: "rat \<Rightarrow> int" where
  "fexp x = max (ilog2 x - 52) (- 1074)"

definition fadd :: "float64 \<Rightarrow> float64 \<Rightarrow> float64" where
  "fadd x y = fl (x + y)"

definition fsub :: "float64 \<Rightarrow> float64 \<Rightarrow> float64" where
  "fsub x y = fl (x - y)"

definition fmul :: "float64 \<Rightarrow> float64 \<Rightarrow> float64" where
  "fmul x y = fl (x * y)"

definition fdiv :: "float64 \<Rightarrow> float64 \<Rightarrow> float64" where
  "fdiv x y = fl (x / y)"

text \<open>The conversion \<^verbatim>\<open>float64(n)\<close> of an integer rounds as every operation does.\<close>

definition float64_of_int :: "int \<Rightarrow> float64" where
  "float64_of_int n = fl (of_int n)"

text \<open>
  The conversion \<^verbatim>\<open>int(x)\<close> of a float discards the fraction (truncation towards
  zero). Go leaves the result open when the truncated value does not fit the 64-bit
  \<^verbatim>\<open>int\<close>; the value taken here is the one the amd64 conversion instruction
  delivers, the least \<^verbatim>\<open>int\<close>.
\<close>

definition go_int :: "float64 \<Rightarrow> int" where
  "go_int x = (let t = (if 0 \<le> x then \<lfloor>x\<rfloor> else \<lceil>x\<rceil>)
     in if - (2 ^ 63) \<le> t \<and> t < 2 ^ 63 then t else - (2 ^ 63))"

text \<open>\<^verbatim>\<open>math.Min\<close> on finite values.\<close>

definition math_Min :: "float64 \<Rightarrow> float64 \<Rightarrow> float64" where
  "math_Min x y = (if x \<le> y then x else y)"

subsection \<open>Integer division\<close>

text \<open>Go's \<^verbatim>\<open>/\<close> on integers truncates towards zero; \<open>div\<close> of HOL rounds down.\<close>

definition go_div :: "int \<Rightarrow> int \<Rightarrow> int" where
  "go_div a b = sgn a * sgn b * (\<bar>a\<bar> div \<bar>b\<bar>)"

section \<open>Data model (barcode.go)\<close>

type_synonym BarcodeType = string

definition BarcodeTypeCode128 :: BarcodeType where
  "BarcodeTypeCode128 = ''CODE128''"

definition BarcodeTypeQR :: BarcodeType where
  "BarcodeTypeQR = ''QR''"

type_synonym TextPosition = string

definition TextPositionAbove :: TextPosition where
  "TextPositionAbove = ''ABOVE''"

definition TextPositionBelow :: TextPosition where
  "TextPositionBelow = ''BELOW''"

type_synonym TextSize = string

definition TextSizeSmall :: TextSize where
  "TextSizeSmall = ''SMALL''"

definition TextSizeMedium :: TextSize where
  "TextSizeMedium = ''MEDIUM''"

definition TextSizeLarge :: TextSize where
  "TextSizeLarge = ''LARGE''"

record TextLine =
  Text :: string
  Position :: TextPosition
  Size :: TextSize

record BarcodeInput =
  BarcodeData :: string
  BarcodeType :: BarcodeType
  Width :: float64
  Height :: float64
  Dpi :: int
  TextLines :: "TextLine list"

record BarcodeOutput =
  ImageBase64 :: string
  ZPL :: string

definition standardDPIValues :: "int list" where
  "standardDPIValues = [203, 300, 600]"

definition labelMarginPixels :: int where
  "labelMarginPixels = 10"

text \<open>
  Errors are values. The first two are raised by the validation of this package; the
  others wrap the error of a library call, kept as its message.
\<close>

datatype error =
    InvalidDpi int
  | InvalidBarcodeType string
  | UnsupportedBarcodeType string
  | EncodeCode128Failed string
  | EncodeQRFailed string
  | ScaleFailed string
  | Base64Failed string

section \<open>Images (package image)\<close>

record Point =
  X :: int
  Y :: int

record Rectangle =
  RMin :: Point
  RMax :: Point

definition Pt :: "int \<Rightarrow> int \<Rightarrow> Point" where
  "Pt x y = \<lparr>X = x, Y = y\<rparr>"

text \<open>\<^verbatim>\<open>image.Rect\<close> swaps the coordinates of an axis given in the wrong order.\<close>

definition Rect :: "int \<Rightarrow> int \<Rightarrow> int \<Rightarrow> int \<Rightarrow> Rectangle" where
  "Rect x0 y0 x1 y1 =
     \<lparr>RMin = Pt (if x0 > x1 then x1 else x0) (if y0 > y1 then y1 else y0),
      RMax = Pt (if x0 > x1 then x0 else x1) (if y0 > y1 then y0 else y1)\<rparr>"

definition Dx :: "Rectangle \<Rightarrow> int" where
  "Dx r = X (RMax r) - X (RMin r)"

definition Dy :: "Rectangle \<Rightarrow> int" where
  "Dy r = Y (RMax r) - Y (RMin r)"

definition Rectangle_Add :: "Rectangle \<Rightarrow> Point \<Rightarrow> Rectangle" where
  "Rectangle_Add r p =
     \<lparr>RMin = Pt (X (RMin r) + X p) (Y (RMin r) + Y p),
      RMax = Pt (X (RMax r) + X p) (Y (RMax r) + Y p)\<rparr>"

text \<open>
  A barcode of the encoding library is its bounding rectangle and the data it encodes. A
  label image is its bounds and the painting operations applied to it so far, oldest first:
  the pixels themselves are the business of the drawing libraries.
\<close>

record Barcode =
  bcBounds :: Rectangle
  bcData :: string

datatype Color = White | Black

datatype DrawOp =
    Fill Rectangle Color
  | DrawBarcode Rectangle Barcode Point
  | DrawString string Point float64 float64 Color

record RGBA =
  Bounds :: Rectangle
  Ops :: "DrawOp list"

section \<open>Library calls\<close>

text \<open>
  The encoders, the scaler, the font rasterizer and the exporters are libraries outside
  this package. Each function below takes them as a record of functions:
  \<^item> \<open>code128_Encode\<close>, \<open>qr_Encode\<close>, \<open>barcode_Scale\<close>: a barcode, or the message of
    the error;
  \<^item> \<open>truetype_Parse_ok\<close>: whether parsing the built-in font succeeds;
  \<^item> \<open>measureString size dpi text\<close>: \<^verbatim>\<open>font.MeasureString(face, text).Ceil()\<close> for the
    face of that size and resolution;
  \<^item> \<open>metricsHeight size dpi\<close>: \<^verbatim>\<open>face.Metrics().Height.Ceil()\<close> for that face;
  \<^item> \<open>png_Encode\<close>, \<open>base64_Encode\<close>, \<open>zplgfa_Convert\<close>: the exporters.
\<close>

record Library =
  code128_Encode :: "string \<Rightarrow> string + Barcode"
  qr_Encode :: "string \<Rightarrow> string + Barcode"
  barcode_Scale :: "Barcode \<Rightarrow> int \<Rightarrow> int \<Rightarrow> string + Barcode"
  truetype_Parse_ok :: bool
  measureString :: "float64 \<Rightarrow> float64 \<Rightarrow> string \<Rightarrow> int"
  metricsHeight :: "float64 \<Rightarrow> float64 \<Rightarrow> int"
  png_Encode :: "RGBA \<Rightarrow> string + string"
  base64_Encode :: "string \<Rightarrow> string"
  zplgfa_Convert :: "RGBA \<Rightarrow> string"

section \<open>Fonts and text (fonts.go)\<close>

definition getBaseFontSize :: "TextSize \<Rightarrow> float64" where
  "getBaseFontSize sz =
     (if sz = TextSizeSmall then 8
      else if sz = TextSizeMedium then 10
      else if sz = TextSizeLarge then 12
      else 10)"

definition scaleFontByLabelWidth :: "float64 \<Rightarrow> int \<Rightarrow> float64" where
  "scaleFontByLabelWidth fontSize labelWidth =
     (let scaleFactor = fadd 1 (fdiv (float64_of_int (labelWidth - 200)) 1000);
          scaleFactor = (if scaleFactor > 2 then 2
                         else if scaleFactor < fl (11 / 10) then fl (11 / 10)
                         else scaleFactor)
      in fmul fontSize scaleFactor)"

definition calculateFontHeight :: "Library \<Rightarrow> float64 \<Rightarrow> int \<Rightarrow> float64" where
  "calculateFontHeight lib fontSize dpi =
     (if \<not> truetype_Parse_ok lib then 0
      else float64_of_int (metricsHeight lib fontSize (float64_of_int dpi)))"

definition getFontSize :: "Library \<Rightarrow> TextSize \<Rightarrow> int \<Rightarrow> int \<Rightarrow> float64 \<times> float64" where
  "getFontSize lib sz dpi labelWidth =
     (let baseFontSize = getBaseFontSize sz;
          scaledFontSize = scaleFontByLabelWidth baseFontSize labelWidth;
          fontHeight = calculateFontHeight lib scaledFontSize dpi
      in (scaledFontSize, fontHeight))"

definition drawText ::
  "Library \<Rightarrow> RGBA \<Rightarrow> string \<Rightarrow> int \<Rightarrow> int \<Rightarrow> float64 \<Rightarrow> float64 \<Rightarrow> float64 \<Rightarrow> TextPosition
     \<Rightarrow> Color \<Rightarrow> RGBA" where
  "drawText lib img text centerX baseY fontSize fontHeight dpi position col =
     (let textWidth = measureString lib fontSize dpi text;
          adjustedX = centerX - go_div textWidth 2;
          margin = go_div (go_int fontHeight) 2;
          adjustedY = (if position = TextPositionAbove then baseY - margin
                       else if position = TextPositionBelow then baseY + margin * 2 + 5
                       else baseY)
      in img\<lparr>Ops := Ops img @ [DrawString text (Pt adjustedX adjustedY) fontSize dpi col]\<rparr>)"

text \<open>
  The recursion of \<open>addTextLineRecursive\<close> has no bound in the source, so the function is
  partial: \<open>None\<close> is the call that never returns.
\<close>

partial_function (option) addTextLineRecursive ::
  "Library \<Rightarrow> RGBA \<Rightarrow> string \<Rightarrow> int \<Rightarrow> int \<Rightarrow> float64 \<Rightarrow> float64 \<Rightarrow> float64 \<Rightarrow> TextPosition
     \<Rightarrow> RGBA option" where
  "addTextLineRecursive lib img text centerX baseY fontSize fontHeight dpi position =
     (if \<not> truetype_Parse_ok lib then Some img
      else if measureString lib fontSize dpi text > Dx (Bounds img) - labelMarginPixels * 2
      then addTextLineRecursive lib img text centerX baseY (fsub fontSize (fl (1 / 10)))
             (calculateFontHeight lib (fsub fontSize (fl (1 / 10))) (go_int dpi)) dpi position
      else Some (drawText lib img text centerX baseY fontSize fontHeight dpi position Black))"

declare addTextLineRecursive.simps [code]

definition addTextLine ::
  "Library \<Rightarrow> RGBA \<Rightarrow> string \<Rightarrow> int \<Rightarrow> int \<Rightarrow> TextSize \<Rightarrow> float64 \<Rightarrow> TextPosition
     \<Rightarrow> RGBA option" where
  "addTextLine lib img text centerX baseY sz dpi position =
     (case getFontSize lib sz (go_int dpi) (Dx (Bounds img)) of
        (fontSize, fontHeight) \<Rightarrow>
          addTextLineRecursive lib img text centerX baseY fontSize fontHeight dpi position)"

text \<open>
  Two notions for speaking about the recursion. \<open>candidate s k\<close> is the font size of
  its \<open>k\<close>-th call when the first call has size \<open>s\<close>: each call passes
  \<^verbatim>\<open>fontSize-0.1\<close> on. \<open>fitsWidth\<close> is the test that ends the recursion: the measured
  width of the text is at most the width of the image less the margin on both sides.
\<close>

fun candidate :: "float64 \<Rightarrow> nat \<Rightarrow> float64" where
  "candidate s 0 = s"
| "candidate s (Suc k) = candidate (fsub s (fl (1 / 10))) k"

definition fitsWidth :: "Library \<Rightarrow> RGBA \<Rightarrow> string \<Rightarrow> float64 \<Rightarrow> float64 \<Rightarrow> bool" where
  "fitsWidth lib img text dpi s =
     (\<not> measureString lib s dpi text > Dx (Bounds img) - labelMarginPixels * 2)"

section \<open>Sizes and layout (dimensions.go)\<close>

definition mmToPixels :: "float64 \<Rightarrow> int \<Rightarrow> int" where
  "mmToPixels mm dpi = go_int (fdiv (fmul mm (float64_of_int dpi)) (fl (254 / 10)))"

definition calculateCode128Size :: "int \<Rightarrow> int \<Rightarrow> Point" where
  "calculateCode128Size labelWidth labelHeight =
     (let barcodeWidth = labelWidth - (labelMarginPixels * 2);
          barcodeHeight = go_int (math_Min (float64_of_int (go_div labelHeight 2)) 200)
      in Pt barcodeWidth barcodeHeight)"

text \<open>The loop of \<open>calculateTextHeight\<close>, with the running total as an argument.\<close>

fun calculateTextHeight_loop :: "Library \<Rightarrow> int \<Rightarrow> float64 \<Rightarrow> TextLine list \<Rightarrow> float64" where
  "calculateTextHeight_loop lib dpi totalHeight [] = totalHeight"
| "calculateTextHeight_loop lib dpi totalHeight (textLine # rest) =
     calculateTextHeight_loop lib dpi
       (fadd totalHeight (fmul (snd (getFontSize lib (Size textLine) dpi 200)) 2)) rest"

definition calculateTextHeight :: "Library \<Rightarrow> BarcodeInput \<Rightarrow> float64" where
  "calculateTextHeight lib input = calculateTextHeight_loop lib (Dpi input) 0 (TextLines input)"

definition calculateQRSize :: "Library \<Rightarrow> BarcodeInput \<Rightarrow> int \<Rightarrow> int \<Rightarrow> Point" where
  "calculateQRSize lib input labelWidth labelHeight =
     (let maxSize = go_int (math_Min (float64_of_int labelWidth) (float64_of_int labelHeight));
          textHeight = calculateTextHeight lib input;
          availableHeight = fsub (float64_of_int labelHeight) textHeight;
          finalSize = go_int (math_Min (float64_of_int maxSize) availableHeight)
      in Pt finalSize finalSize)"

definition calculateBarcodeSize :: "Library \<Rightarrow> BarcodeInput \<Rightarrow> int \<Rightarrow> int \<Rightarrow> Point" where
  "calculateBarcodeSize lib input labelWidth labelHeight =
     (if BarcodeType input = BarcodeTypeCode128
      then calculateCode128Size labelWidth labelHeight
      else calculateQRSize lib input labelWidth labelHeight)"

definition scaleBarcodeToFit :: "Library \<Rightarrow> Barcode \<Rightarrow> Point \<Rightarrow> error + Barcode" where
  "scaleBarcodeToFit lib bc sz =
     (case barcode_Scale lib bc (X sz) (Y sz) of
        Inl err \<Rightarrow> Inl (ScaleFailed err)
      | Inr scaled \<Rightarrow> Inr scaled)"

definition centerBarcodeOnLabel :: "RGBA \<Rightarrow> Barcode \<Rightarrow> Rectangle" where
  "centerBarcodeOnLabel img bc =
     (let imgBounds = Bounds img;
          bcB = bcBounds bc;
          offsetX = go_div (Dx imgBounds - Dx bcB) 2;
          offsetY = go_div (Dy imgBounds - Dy bcB) 2
      in Rectangle_Add bcB (Pt offsetX offsetY))"

definition calculateTextYPosition :: "Rectangle \<Rightarrow> TextPosition \<Rightarrow> int" where
  "calculateTextYPosition barcodeRect position =
     (if position = TextPositionAbove then Y (RMin barcodeRect) else Y (RMax barcodeRect))"

section \<open>Painting (rendering.go) and export (formatting.go)\<close>

text \<open>The allocation of the pixel buffer is not part of the model: an image of any bounds exists.\<close>

definition createBlankLabel :: "int \<Rightarrow> int \<Rightarrow> RGBA" where
  "createBlankLabel width height =
     (let bounds = Rect 0 0 width height
      in \<lparr>Bounds = bounds, Ops = [Fill bounds White]\<rparr>)"

definition drawBarcodeOnLabel :: "RGBA \<Rightarrow> Barcode \<Rightarrow> Rectangle \<Rightarrow> RGBA" where
  "drawBarcodeOnLabel label barcode position =
     label\<lparr>Ops := Ops label @ [DrawBarcode position barcode (RMin (bcBounds barcode))]\<rparr>"

definition imageToBase64 :: "Library \<Rightarrow> RGBA \<Rightarrow> string + string" where
  "imageToBase64 lib img =
     (case png_Encode lib img of
        Inl err \<Rightarrow> Inl err
      | Inr buf \<Rightarrow> Inr (base64_Encode lib buf))"

definition imageToZPL :: "Library \<Rightarrow> RGBA \<Rightarrow> string" where
  "imageToZPL lib img = zplgfa_Convert lib img"

section \<open>The pipeline (barcode.go)\<close>

definition validateDPI :: "int \<Rightarrow> error option" where
  "validateDPI dpi = (if dpi \<in> set standardDPIValues then None else Some (InvalidDpi dpi))"

definition validateBarcodeType :: "BarcodeType \<Rightarrow> error option" where
  "validateBarcodeType barcodeType =
     (if barcodeType = BarcodeTypeCode128 \<or> barcodeType = BarcodeTypeQR then None
      else Some (InvalidBarcodeType barcodeType))"

definition validateInput :: "BarcodeInput \<Rightarrow> error option" where
  "validateInput input =
     (case validateDPI (Dpi input) of
        Some err \<Rightarrow> Some err
      | None \<Rightarrow> (case validateBarcodeType (BarcodeType input) of
                   Some err \<Rightarrow> Some err
                 | None \<Rightarrow> None))"

definition encodeCode128 :: "Library \<Rightarrow> string \<Rightarrow> error + Barcode" where
  "encodeCode128 lib d =
     (case code128_Encode lib d of
        Inl err \<Rightarrow> Inl (EncodeCode128Failed err)
      | Inr bc \<Rightarrow> Inr bc)"

definition encodeQRCode :: "Library \<Rightarrow> string \<Rightarrow> error + Barcode" where
  "encodeQRCode lib d =
     (case qr_Encode lib d of
        Inl err \<Rightarrow> Inl (EncodeQRFailed err)
      | Inr bc \<Rightarrow> Inr bc)"

definition encodeBarcode :: "Library \<Rightarrow> BarcodeInput \<Rightarrow> error + Barcode" where
  "encodeBarcode lib input =
     (if BarcodeType input = BarcodeTypeCode128 then encodeCode128 lib (BarcodeData input)
      else if BarcodeType input = BarcodeTypeQR then encodeQRCode lib (BarcodeData input)
      else Inl (UnsupportedBarcodeType (BarcodeType input)))"

definition renderLabel :: "Library \<Rightarrow> BarcodeInput \<Rightarrow> Barcode \<Rightarrow> error + RGBA \<times> Rectangle" where
  "renderLabel lib input bc =
     (let labelWidth = mmToPixels (Width input) (Dpi input);
          labelHeight = mmToPixels (Height input) (Dpi input);
          barcodeSize = calculateBarcodeSize lib input labelWidth labelHeight
      in case scaleBarcodeToFit lib bc barcodeSize of
           Inl err \<Rightarrow> Inl err
         | Inr scaledBc \<Rightarrow>
             (let img = createBlankLabel labelWidth labelHeight;
                  barcodeRect = centerBarcodeOnLabel img scaledBc
              in Inr (drawBarcodeOnLabel img scaledBc barcodeRect, barcodeRect)))"

text \<open>
  The loop of \<open>renderTextLines\<close> over the text lines, the image threaded through; a line
  whose fitting never returns leaves the whole loop without a result.
\<close>

fun renderTextLines_loop ::
  "Library \<Rightarrow> RGBA \<Rightarrow> int \<Rightarrow> Rectangle \<Rightarrow> TextLine list \<Rightarrow> RGBA option" where
  "renderTextLines_loop lib img dpi barcodeRect [] = Some img"
| "renderTextLines_loop lib img dpi barcodeRect (textLine # rest) =
     (case addTextLine lib img (Text textLine) (go_div (Dx (Bounds img)) 2)
             (calculateTextYPosition barcodeRect (Position textLine))
             (Size textLine) (float64_of_int dpi) (Position textLine) of
        None \<Rightarrow> None
      | Some img' \<Rightarrow> renderTextLines_loop lib img' dpi barcodeRect rest)"

text \<open>\<open>renderTextLines\<close> has an error result in its signature and returns \<^verbatim>\<open>nil\<close> only.\<close>

definition renderTextLines ::
  "Library \<Rightarrow> RGBA \<Rightarrow> BarcodeInput \<Rightarrow> Rectangle \<Rightarrow> (error + RGBA) option" where
  "renderTextLines lib img input barcodeRect =
     (case renderTextLines_loop lib img (Dpi input) barcodeRect (TextLines input) of
        None \<Rightarrow> None
      | Some img' \<Rightarrow> Some (Inr img'))"

definition generateOutputFormats :: "Library \<Rightarrow> RGBA \<Rightarrow> error + BarcodeOutput" where
  "generateOutputFormats lib img =
     (case imageToBase64 lib img of
        Inl err \<Rightarrow> Inl (Base64Failed err)
      | Inr base64Image \<Rightarrow> Inr \<lparr>ImageBase64 = base64Image, ZPL = imageToZPL lib img\<rparr>)"

definition GenerateBarcode :: "Library \<Rightarrow> BarcodeInput \<Rightarrow> (error + BarcodeOutput) option" where
  "GenerateBarcode lib input =
     (case validateInput input of
        Some err \<Rightarrow> Some (Inl err)
      | None \<Rightarrow>
     (case encodeBarcode lib input of
        Inl err \<Rightarrow> Some (Inl err)
      | Inr bc \<Rightarrow>
     (case renderLabel lib input bc of
        Inl err \<Rightarrow> Some (Inl err)
      | Inr (labelImg, barcodeRect) \<Rightarrow>
     (case renderTextLines lib labelImg input barcodeRect of
        None \<Rightarrow> None
      | Some (Inl err) \<Rightarrow> Some (Inl err)
      | Some (Inr img) \<Rightarrow> Some (generateOutputFormats lib img)))))"

section \<open>A library to compute with\<close>

text \<open>
  An instance of the library calls, for evaluating the functions above on concrete
  requests. It follows the libraries the package is built on in what matters to the
  layout:
  \<^item> the encoder makes a Code 128 symbol one pixel high and \<open>35 + 11 n\<close> wide for \<open>n\<close>
    characters, and a QR symbol of 21 by 21 modules;
  \<^item> the scaler refuses a width below the symbol's own and, for a symbol of two
    dimensions, a height below it, and otherwise gives the symbol the bounds asked for;
  \<^item> the rasterizer scales its outlines in proportion to the font size: at size \<open>s\<close> and
    resolution \<open>dpi\<close> one em is \<open>\<lfloor>1/2 + 64 s dpi / 72\<rfloor>\<close> sixty-fourths of a pixel, a size or
    resolution that is not positive counting as 12 points or 72 dots per inch; every
    character advances half an em, and a line is one em high (both less than the glyphs
    and lines of a text font);
  \<^item> the PNG encoder refuses an image with an empty side.
\<close>

definition exampleScale :: "float64 \<Rightarrow> float64 \<Rightarrow> int" where
  "exampleScale s dpi =
     \<lfloor>1 / 2 + (if 0 < s then s else 12) * (if 0 < dpi then dpi else 72) * 64 / 72\<rfloor>"

definition exampleLibrary :: Library where
  "exampleLibrary =
     \<lparr>code128_Encode = (\<lambda>d. if d = [] then Inl ''empty data''
          else Inr \<lparr>bcBounds = Rect 0 0 (35 + 11 * int (length d)) 1, bcData = d\<rparr>),
      qr_Encode = (\<lambda>d. if d = [] then Inl ''empty data''
          else Inr \<lparr>bcBounds = Rect 0 0 21 21, bcData = d\<rparr>),
      barcode_Scale = (\<lambda>bc w h.
          if w < Dx (bcBounds bc) \<or> (1 < Dy (bcBounds bc) \<and> h < Dy (bcBounds bc))
          then Inl ''can not scale barcode to a smaller image''
          else Inr (bc\<lparr>bcBounds := Rect 0 0 w h\<rparr>)),
      truetype_Parse_ok = True,
      measureString = (\<lambda>s dpi text.
          (int (length text) * (exampleScale s dpi div 2) + 63) div 64),
      metricsHeight = (\<lambda>s dpi. (exampleScale s dpi + 63) div 64),
      png_Encode = (\<lambda>img. if Dx (Bounds img) \<le> 0 \<or> Dy (Bounds img) \<le> 0
          then Inl ''invalid image size'' else Inr ''PNG''),
      base64_Encode = (\<lambda>buf. buf),
      zplgfa_Convert = (\<lambda>img. ''^XA^XZ'')\<rparr>"

text \<open>
  Two text lines are the same to the pipeline when they agree in text, position and the
  base font size of their size class.
\<close>

definition sameLine :: "TextLine \<Rightarrow> TextLine \<Rightarrow> bool" where
  "sameLine a b \<longleftrightarrow> Text a = Text b \<and> Position a = Position b \<and>
     getBaseFontSize (Size a) = getBaseFontSize (Size b)"

section \<open>Properties of the rounding\<close>

subsection \<open>The binary exponent\<close>

lemma powi_diff_nat: "(2::rat) powi (int m - int n) = 2 ^ m / 2 ^ n"
  by (simp add: power_int_diff)

lemma powi2_less_cancel: "(2::rat) powi a < 2 powi b \<Longrightarrow> a < b"
  using power_int_increasing[of b a "2::rat"] by (cases "a < b") auto

lemma powi2_le_cancel: "(2::rat) powi a \<le> 2 powi b \<Longrightarrow> a \<le> b"
  using power_int_strict_increasing[of b a "2::rat"] by (cases "a \<le> b") auto

lemma ilog2_raw_bounds:
  assumes "0 < (a::rat)" and "quotient_of a = (p, q)"
  shows "2 powi (bitlen p - bitlen q - 1) \<le> a" and "a < 2 powi (bitlen p - bitlen q + 1)"
proof -
  have q: "0 < q" using assms(2) quotient_of_denom_pos by blast
  have a: "a = of_int p / of_int q" using assms(2) quotient_of_div by blast
  have p: "0 < p" using assms(1) q a by (simp add: zero_less_divide_iff)
  have "1 \<le> bitlen p" using p by (auto simp: bitlen_alt_def)
  then obtain m where m: "bitlen p = int m" "0 < m"
    by (metis nat_0_le nat_eq_iff2 not_one_le_zero of_nat_0_less_iff order_less_le zero_le_one order_trans)
  have "1 \<le> bitlen q" using q by (auto simp: bitlen_alt_def)
  then obtain n where n: "bitlen q = int n" "0 < n"
    by (metis nat_0_le nat_eq_iff2 not_one_le_zero of_nat_0_less_iff order_less_le zero_le_one order_trans)
  have pb: "2 ^ (m - 1) \<le> p" "p < 2 ^ m"
    using bitlen_bounds[OF p] m by (simp_all add: nat_diff_distrib)
  have qb: "2 ^ (n - 1) \<le> q" "q < 2 ^ n"
    using bitlen_bounds[OF q] n by (simp_all add: nat_diff_distrib)
  have pr: "(2::rat) ^ (m - 1) \<le> of_int p" "(of_int p :: rat) < 2 ^ m"
    using pb by (metis of_int_le_iff of_int_numeral of_int_power, metis of_int_less_iff of_int_numeral of_int_power)
  have qr: "(2::rat) ^ (n - 1) \<le> of_int q" "(of_int q :: rat) < 2 ^ n"
    using qb by (metis of_int_le_iff of_int_numeral of_int_power, metis of_int_less_iff of_int_numeral of_int_power)
  have qpos: "(0::rat) < of_int q" using q by simp
  have e1: "bitlen p - bitlen q - 1 = int (m - 1) - int n" using m n by simp
  have e2: "bitlen p - bitlen q + 1 = int m - int (n - 1)" using m n by simp
  have "(2::rat) ^ (m - 1) / 2 ^ n \<le> of_int p / of_int q"
    using pr(1) qr(2) qpos p by (intro frac_le) simp_all
  then show "2 powi (bitlen p - bitlen q - 1) \<le> a"
    unfolding e1 powi_diff_nat a .
  have "of_int p / of_int q < (2::rat) ^ m / 2 ^ (n - 1)"
    using pr(2) qr(1) qpos p by (intro frac_less) simp_all
  then show "a < 2 powi (bitlen p - bitlen q + 1)"
    unfolding e2 powi_diff_nat a .
qed

lemma ilog2_bounds:
  assumes "x \<noteq> 0"
  shows "2 powi ilog2 x \<le> \<bar>x\<bar>" and "\<bar>x\<bar> < 2 powi (ilog2 x + 1)"
proof -
  obtain p q where pq: "quotient_of \<bar>x\<bar> = (p, q)" by (cases "quotient_of \<bar>x\<bar>")
  have pos: "0 < \<bar>x\<bar>" using assms by simp
  note b = ilog2_raw_bounds[OF pos pq]
  show "2 powi ilog2 x \<le> \<bar>x\<bar>"
    using b(1) by (simp add: ilog2_def pq Let_def)
  show "\<bar>x\<bar> < 2 powi (ilog2 x + 1)"
    using b(2) by (auto simp add: ilog2_def pq Let_def not_le)
qed

lemma ilog2_unique:
  assumes "2 powi k \<le> \<bar>x\<bar>" and "\<bar>x\<bar> < 2 powi (k + 1)"
  shows "ilog2 x = k"
proof -
  have "(0::rat) < 2 powi k" by simp
  with assms(1) have "0 < \<bar>x\<bar>" by linarith
  then have nz: "x \<noteq> 0" by auto
  note b = ilog2_bounds[OF nz]
  have "(2::rat) powi ilog2 x < 2 powi (k + 1)" using b(1) assms(2) by simp
  then have 1: "ilog2 x < k + 1" by (rule powi2_less_cancel)
  have "(2::rat) powi k < 2 powi (ilog2 x + 1)" using b(2) assms(1) by simp
  then have 2: "k < ilog2 x + 1" by (rule powi2_less_cancel)
  from 1 2 show ?thesis by simp
qed

subsection \<open>Rounding to an integer\<close>

lemma fl_fexp: "x \<noteq> 0 \<Longrightarrow> fl x = of_int (round_half_even (x / 2 powi fexp x)) * 2 powi fexp x"
  by (simp add: fl_def fexp_def Let_def)

lemma rhe_of_int [simp]: "round_half_even (of_int m) = m"
  by (simp add: round_half_even_def)

lemma rhe_cases:
  "round_half_even x = \<lfloor>x\<rfloor> \<or> round_half_even x = \<lfloor>x\<rfloor> + 1"
  by (simp add: round_half_even_def Let_def)

lemma rhe_floor_le: "\<lfloor>x\<rfloor> \<le> round_half_even x"
  using rhe_cases[of x] by auto

lemma rhe_le_floor1: "round_half_even x \<le> \<lfloor>x\<rfloor> + 1"
  using rhe_cases[of x] by auto

lemma rhe_mono: "x \<le> y \<Longrightarrow> round_half_even x \<le> round_half_even y"
proof -
  assume xy: "x \<le> y"
  then have f: "\<lfloor>x\<rfloor> \<le> \<lfloor>y\<rfloor>" by (rule floor_mono)
  show ?thesis
  proof (cases "\<lfloor>x\<rfloor> = \<lfloor>y\<rfloor>")
    case True
    then have "x - of_int \<lfloor>x\<rfloor> \<le> y - of_int \<lfloor>y\<rfloor>" using xy by simp
    then show ?thesis using True by (auto simp add: round_half_even_def Let_def)
  next
    case False
    then have "\<lfloor>x\<rfloor> + 1 \<le> \<lfloor>y\<rfloor>" using f by simp
    then show ?thesis using rhe_le_floor1[of x] rhe_floor_le[of y] by linarith
  qed
qed

lemma rhe_minus: "round_half_even (- x) = - round_half_even x"
proof (cases "x = of_int \<lfloor>x\<rfloor>")
  case True
  then obtain m where m: "x = of_int m" ..
  have "round_half_even (of_int (- m)) = - m" by (rule rhe_of_int)
  then show ?thesis unfolding m by simp
next
  case False
  have "of_int \<lfloor>x\<rfloor> \<le> x" by (rule of_int_floor_le)
  with False have lt: "of_int \<lfloor>x\<rfloor> < x" by (metis order_less_le)
  have ub: "x < of_int \<lfloor>x\<rfloor> + 1" using floor_correct[of x] by simp
  have fm: "\<lfloor>- x\<rfloor> = - \<lfloor>x\<rfloor> - 1"
  proof (rule floor_unique)
    show "of_int (- \<lfloor>x\<rfloor> - 1) \<le> - x" using ub by simp
    show "- x < of_int (- \<lfloor>x\<rfloor> - 1) + 1" using lt by simp
  qed
  show ?thesis
    using lt by (auto simp add: round_half_even_def Let_def fm)
qed

subsection \<open>Rounding to binary64: grid points, monotonicity, exact values\<close>

lemma ilog2_minus [simp]: "ilog2 (- x) = ilog2 x"
  by (simp add: ilog2_def)

lemma fexp_minus [simp]: "fexp (- x) = fexp x"
  by (simp add: fexp_def)

lemma fl_0 [simp]: "fl 0 = 0"
  by (simp add: fl_def)

lemma fl_minus: "fl (- x) = - fl x"
  by (cases "x = 0") (simp_all add: fl_fexp rhe_minus)

lemma fl_grid_le:
  assumes "x \<noteq> 0" and "g = of_int m * 2 powi fexp x" and "x \<le> g"
  shows "fl x \<le> g"
proof -
  have q: "(0::rat) < 2 powi fexp x" by simp
  have "x / 2 powi fexp x \<le> of_int m"
    using assms(2,3) q by (simp add: pos_divide_le_eq)
  then have "round_half_even (x / 2 powi fexp x) \<le> m"
    using rhe_mono rhe_of_int by metis
  then have "(of_int (round_half_even (x / 2 powi fexp x)) :: rat) \<le> of_int m" by simp
  then show ?thesis
    unfolding fl_fexp[OF assms(1)] assms(2) using q by (simp del: zero_less_power_int)
qed

lemma fl_grid_ge:
  assumes "x \<noteq> 0" and "g = of_int m * 2 powi fexp x" and "g \<le> x"
  shows "g \<le> fl x"
proof -
  have q: "(0::rat) < 2 powi fexp x" by simp
  have "of_int m \<le> x / 2 powi fexp x"
    using assms(2,3) q by (simp add: pos_le_divide_eq)
  then have "m \<le> round_half_even (x / 2 powi fexp x)"
    using rhe_mono rhe_of_int by metis
  then have "(of_int m :: rat) \<le> of_int (round_half_even (x / 2 powi fexp x))" by simp
  then show ?thesis
    unfolding fl_fexp[OF assms(1)] assms(2) using q by (simp del: zero_less_power_int)
qed

lemma fl_grid_exact:
  assumes "x \<noteq> 0" and "x = of_int m * 2 powi fexp x"
  shows "fl x = x"
  using fl_grid_le[OF assms(1) assms(2)] fl_grid_ge[OF assms(1) assms(2)] by simp

lemma ilog2_mono:
  assumes "0 < x" and "x \<le> y"
  shows "ilog2 x \<le> ilog2 y"
proof -
  have "x \<noteq> 0" "y \<noteq> 0" using assms by auto
  then have "2 powi ilog2 x \<le> \<bar>x\<bar>" "\<bar>y\<bar> < 2 powi (ilog2 y + 1)"
    using ilog2_bounds by blast+
  then have "(2::rat) powi ilog2 x < 2 powi (ilog2 y + 1)" using assms by simp
  then show ?thesis using powi2_less_cancel by fastforce
qed

lemma fexp_mono: "0 < x \<Longrightarrow> x \<le> y \<Longrightarrow> fexp x \<le> fexp y"
  using ilog2_mono[of x y] by (simp add: fexp_def)

lemma pow2_on_grid:
  assumes "e \<le> k"
  shows "\<exists>m. (2::rat) powi k = of_int m * 2 powi e"
proof -
  have "(2::rat) powi k = 2 powi (int (nat (k - e)) + e)" using assms by simp
  also have "\<dots> = of_int (2 ^ nat (k - e)) * 2 powi e"
    by (simp only: power_int_add[of "2::rat", simplified] power_int_of_nat of_int_power of_int_numeral)
  finally show ?thesis by blast
qed

lemma fl_mono_pos:
  assumes "0 < x" and "x \<le> y"
  shows "fl x \<le> fl y"
proof -
  have nz: "x \<noteq> 0" "y \<noteq> 0" and ypos: "0 < y" using assms by auto
  have ee: "fexp x \<le> fexp y" using assms by (rule fexp_mono)
  show ?thesis
  proof (cases "fexp x = fexp y")
    case True
    have "x / 2 powi fexp y \<le> y / 2 powi fexp y"
      using assms(2) by (simp add: divide_right_mono)
    then have "round_half_even (x / 2 powi fexp y) \<le> round_half_even (y / 2 powi fexp y)"
      by (rule rhe_mono)
    then have "(of_int (round_half_even (x / 2 powi fexp y)) :: rat)
        \<le> of_int (round_half_even (y / 2 powi fexp y))" by simp
    then show ?thesis
      unfolding fl_fexp[OF nz(1)] fl_fexp[OF nz(2)] True
      by (simp add: mult_right_mono)
  next
    case False
    then have lt: "fexp x < fexp y" using ee by simp
    then have ey: "fexp y = ilog2 y - 52" by (auto simp add: fexp_def max_def split: if_splits)
    have kk: "ilog2 x + 1 \<le> ilog2 y" using lt ey by (simp add: fexp_def)
    have ex: "fexp x \<le> ilog2 y" using lt ey by simp
    have "x < 2 powi (ilog2 x + 1)" using ilog2_bounds(2)[OF nz(1)] assms(1) by simp
    also have "\<dots> \<le> 2 powi ilog2 y" using kk by (simp add: power_int_increasing)
    finally have xg: "x \<le> 2 powi ilog2 y" by simp
    have gy: "2 powi ilog2 y \<le> y" using ilog2_bounds(1)[OF nz(2)] ypos by simp
    obtain m where m: "(2::rat) powi ilog2 y = of_int m * 2 powi fexp x"
      using pow2_on_grid[OF ex] by blast
    obtain n where n: "(2::rat) powi ilog2 y = of_int n * 2 powi fexp y"
      using pow2_on_grid[of "fexp y" "ilog2 y"] ey by auto
    have "fl x \<le> 2 powi ilog2 y" by (rule fl_grid_le[OF nz(1) m xg])
    also have "\<dots> \<le> fl y" by (rule fl_grid_ge[OF nz(2) n gy])
    finally show ?thesis .
  qed
qed

lemma fl_nonneg: "0 \<le> x \<Longrightarrow> 0 \<le> fl x"
proof (cases "x = 0")
  case False
  assume "0 \<le> x"
  have "(0::rat) = of_int 0 * 2 powi fexp x" by simp
  from fl_grid_ge[OF False this \<open>0 \<le> x\<close>] show ?thesis .
qed simp

lemma fl_mono: "x \<le> y \<Longrightarrow> fl x \<le> fl y"
proof -
  assume xy: "x \<le> y"
  consider "0 < x" | "y < 0" | "x \<le> 0" "0 \<le> y" by linarith
  then show ?thesis
  proof cases
    case 1
    then show ?thesis using xy by (rule fl_mono_pos)
  next
    case 2
    then have "fl (- y) \<le> fl (- x)" using xy by (intro fl_mono_pos) auto
    then show ?thesis by (simp add: fl_minus)
  next
    case 3
    have "fl x \<le> 0" using fl_nonneg[of "- x"] 3(1) by (simp add: fl_minus)
    also have "0 \<le> fl y" using 3(2) by (rule fl_nonneg)
    finally show ?thesis .
  qed
qed

lemma ilog2_scale:
  assumes "x \<noteq> 0"
  shows "ilog2 (x * 2 powi e) = ilog2 x + e"
proof (rule ilog2_unique)
  have p: "(0::rat) < 2 powi e" by simp
  have a: "\<bar>x * 2 powi e\<bar> = \<bar>x\<bar> * 2 powi e" by (simp add: abs_mult)
  show "2 powi (ilog2 x + e) \<le> \<bar>x * 2 powi e\<bar>"
    unfolding a using ilog2_bounds(1)[OF assms] p
    by (simp add: power_int_add mult_right_mono del: zero_less_power_int)
  show "\<bar>x * 2 powi e\<bar> < 2 powi (ilog2 x + e + 1)"
    unfolding a using ilog2_bounds(2)[OF assms] p
    by (simp add: power_int_add mult_strict_right_mono del: zero_less_power_int)
qed

lemma ilog2_int_range:
  assumes "m \<noteq> 0" and "\<bar>m\<bar> < 2 ^ n"
  shows "0 \<le> ilog2 (of_int m)" and "ilog2 (of_int m) < int n"
proof -
  have nz: "(of_int m :: rat) \<noteq> 0" using assms(1) by simp
  have "1 \<le> \<bar>m\<bar>" using assms(1) by simp
  then have "(1::rat) \<le> \<bar>of_int m\<bar>" by (metis of_int_1 of_int_abs of_int_le_iff)
  then have "(2::rat) powi 0 < 2 powi (ilog2 (of_int m) + 1)"
    using ilog2_bounds(2)[OF nz] by simp
  then have "0 < ilog2 (of_int m) + 1" by (rule powi2_less_cancel)
  then show "0 \<le> ilog2 (of_int m)" by simp
  have "(\<bar>of_int m\<bar> :: rat) < 2 ^ n" using assms(2)
    by (metis of_int_abs of_int_less_iff of_int_numeral of_int_power)
  then have "(2::rat) powi ilog2 (of_int m) < 2 powi int n"
    using ilog2_bounds(1)[OF nz] by simp
  then show "ilog2 (of_int m) < int n" by (rule powi2_less_cancel)
qed

lemma fl_repr_exact_lt:
  assumes "\<bar>m\<bar> < 2 ^ 53" and "- 1074 \<le> e"
  shows "fl (of_int m * 2 powi e) = of_int m * 2 powi e"
proof (cases "m = 0")
  case False
  let ?x = "of_int m * (2::rat) powi e"
  have nz: "(of_int m :: rat) \<noteq> 0" using False by simp
  then have xnz: "?x \<noteq> 0" by simp
  have k: "ilog2 ?x = ilog2 (of_int m) + e" by (rule ilog2_scale[OF nz])
  have "ilog2 (of_int m :: rat) < 53" using ilog2_int_range(2)[OF False assms(1)] by simp
  then have le: "fexp ?x \<le> e" using assms(2) by (simp add: fexp_def k)
  have "(2::rat) powi e = 2 powi (int (nat (e - fexp ?x)) + fexp ?x)" using le by simp
  also have "\<dots> = of_int (2 ^ nat (e - fexp ?x)) * 2 powi fexp ?x"
    by (simp only: power_int_add[of "2::rat", simplified] power_int_of_nat of_int_power of_int_numeral)
  finally have "?x = of_int (m * 2 ^ nat (e - fexp ?x)) * 2 powi fexp ?x"
    by simp
  then show ?thesis by (rule fl_grid_exact[OF xnz])
qed simp

lemma fl_repr_exact:
  assumes "\<bar>m\<bar> \<le> 2 ^ 53" and "- 1074 \<le> e"
  shows "fl (of_int m * 2 powi e) = of_int m * 2 powi e"
proof (cases "\<bar>m\<bar> < 2 ^ 53")
  case True
  then show ?thesis using assms(2) by (rule fl_repr_exact_lt)
next
  case False
  then have "\<bar>m\<bar> = 2 ^ 53" using assms(1) by simp
  then have "m = 2 ^ 53 \<or> m = - (2 ^ 53)" by linarith
  then have m: "m = 2 * (m div 2)" and b: "\<bar>m div 2\<bar> < 2 ^ 53" by auto
  have "(of_int m :: rat) * 2 powi e = of_int (m div 2) * 2 powi (e + 1)"
    by (subst m) (simp add: power_int_add)
  moreover have "fl (of_int (m div 2) * 2 powi (e + 1)) = of_int (m div 2) * 2 powi (e + 1)"
    using assms(2) by (intro fl_repr_exact_lt[OF b]) simp
  ultimately show ?thesis by simp
qed

lemma fl_of_int: "\<bar>n\<bar> \<le> 2 ^ 53 \<Longrightarrow> fl (of_int n) = of_int n"
  using fl_repr_exact[of n 0] by simp

lemma float64_of_int_exact: "\<bar>n\<bar> \<le> 2 ^ 53 \<Longrightarrow> float64_of_int n = of_int n"
  by (simp add: float64_of_int_def fl_of_int)

text \<open>Every rounded value is of the form significand times power of two.\<close>

lemma fl_is_repr:
  "\<exists>m. \<bar>m\<bar> \<le> 2 ^ 53 \<and> fl x = of_int m * 2 powi fexp x"
proof (cases "x = 0")
  case False
  let ?q = "(2::rat) powi fexp x"
  have q: "0 < ?q" by simp
  have k: "ilog2 x + 1 \<le> fexp x + 53" by (simp add: fexp_def)
  have "\<bar>x\<bar> < 2 powi (ilog2 x + 1)" by (rule ilog2_bounds(2)[OF False])
  also have "\<dots> \<le> 2 powi (fexp x + 53)" using k by (simp add: power_int_increasing)
  also have "\<dots> = of_int (2 ^ 53) * ?q" by (simp add: power_int_add)
  finally have ub: "\<bar>x\<bar> \<le> of_int (2 ^ 53) * ?q" by simp
  then have "x / ?q \<le> of_int (2 ^ 53)" "of_int (- (2 ^ 53)) \<le> x / ?q"
    using q by (simp_all add: pos_divide_le_eq pos_le_divide_eq del: zero_less_power_int)
  then have "round_half_even (x / ?q) \<le> 2 ^ 53" "- (2 ^ 53) \<le> round_half_even (x / ?q)"
    using rhe_mono rhe_of_int by metis+
  then have "\<bar>round_half_even (x / ?q)\<bar> \<le> 2 ^ 53" by simp
  then show ?thesis using fl_fexp[OF False] by blast
qed (auto intro: exI[of _ 0])

subsection \<open>The error of one rounding\<close>

lemma rhe_error: "\<bar>of_int (round_half_even y) - y\<bar> \<le> 1 / 2"
proof -
  have lb: "of_int \<lfloor>y\<rfloor> \<le> y" and ub: "y < of_int \<lfloor>y\<rfloor> + 1"
    using floor_correct[of y] by simp_all
  show ?thesis
    using lb ub by (auto simp add: round_half_even_def Let_def abs_le_iff not_less)
qed

lemma fl_error: "x \<noteq> 0 \<Longrightarrow> \<bar>fl x - x\<bar> \<le> 2 powi fexp x / 2"
proof -
  assume nz: "x \<noteq> 0"
  let ?q = "(2::rat) powi fexp x"
  have q: "0 < ?q" by simp
  have "fl x - x = (of_int (round_half_even (x / ?q)) - x / ?q) * ?q"
    using q by (simp add: fl_fexp[OF nz] algebra_simps)
  then have "\<bar>fl x - x\<bar> = \<bar>of_int (round_half_even (x / ?q)) - x / ?q\<bar> * ?q"
    using q by (simp add: abs_mult)
  also have "\<dots> \<le> (1 / 2) * ?q"
    using rhe_error[of "x / ?q"] q by (intro mult_right_mono) simp_all
  finally show ?thesis by simp
qed

lemma fl_error_32:
  assumes "\<bar>x\<bar> < 32"
  shows "\<bar>fl x - x\<bar> \<le> 1 / 2 ^ 49"
proof (cases "x = 0")
  case False
  have "(2::rat) powi ilog2 x < 2 powi 5"
    using ilog2_bounds(1)[OF False] assms by simp
  then have "ilog2 x < 5" by (rule powi2_less_cancel)
  then have "fexp x \<le> - 48" by (simp add: fexp_def)
  then have "(2::rat) powi fexp x \<le> 2 powi (- 48)" by (intro power_int_increasing) simp_all
  also have "(2::rat) powi (- 48) = 1 / 2 ^ 48" by (simp add: power_int_minus_divide)
  finally have "(2::rat) powi fexp x / 2 \<le> 1 / 2 ^ 49" by simp
  with fl_error[OF False] show ?thesis by linarith
qed simp

lemma fl_idem [simp]: "fl (fl x) = fl x"
proof -
  obtain m where m: "\<bar>m\<bar> \<le> 2 ^ 53" "fl x = of_int m * 2 powi fexp x"
    using fl_is_repr[of x] by blast
  have "- 1074 \<le> fexp x" by (simp add: fexp_def)
  from fl_repr_exact[OF m(1) this] show ?thesis by (simp add: m(2))
qed

lemma fsub_fl [simp]: "fl (fsub x y) = fsub x y"
  by (simp add: fsub_def)

lemma fmul_fl [simp]: "fl (fmul x y) = fmul x y"
  by (simp add: fmul_def)

section \<open>The recursion that shrinks the font\<close>

lemma addTextLineRecursive_fit:
  assumes "truetype_Parse_ok lib"
    and "fitsWidth lib img text dpi (candidate s k)"
    and "\<forall>j<k. \<not> fitsWidth lib img text dpi (candidate s j)"
  shows "addTextLineRecursive lib img text centerX baseY s h dpi position =
     Some (drawText lib img text centerX baseY (candidate s k)
        (if k = 0 then h else calculateFontHeight lib (candidate s k) (go_int dpi))
        dpi position Black)"
  using assms(2,3)
proof (induction k arbitrary: s h)
  case 0
  then show ?case
    using assms(1) by (subst addTextLineRecursive.simps) (simp add: fitsWidth_def)
next
  case (Suc k)
  have nofit: "\<not> fitsWidth lib img text dpi s" using Suc.prems(2) by (metis candidate.simps(1) zero_less_Suc)
  have later: "\<forall>j<k. \<not> fitsWidth lib img text dpi (candidate (fsub s (fl (1 / 10))) j)"
    using Suc.prems(2) by (metis Suc_less_eq candidate.simps(2))
  have fit: "fitsWidth lib img text dpi (candidate (fsub s (fl (1 / 10))) k)"
    using Suc.prems(1) by simp
  have step: "addTextLineRecursive lib img text centerX baseY s h dpi position =
      addTextLineRecursive lib img text centerX baseY (fsub s (fl (1 / 10)))
        (calculateFontHeight lib (fsub s (fl (1 / 10))) (go_int dpi)) dpi position"
    using assms(1) nofit by (subst addTextLineRecursive.simps) (simp add: fitsWidth_def)
  show ?case
    unfolding step Suc.IH[OF fit later]
    by (cases k) simp_all
qed

lemma addTextLineRecursive_Some_fits:
  assumes "addTextLineRecursive lib img text centerX baseY s h dpi position = Some r"
    and "truetype_Parse_ok lib"
  shows "\<exists>k. fitsWidth lib img text dpi (candidate s k)"
proof -
  have "truetype_Parse_ok lib \<longrightarrow> (\<exists>k. fitsWidth lib img text dpi (candidate s k))"
  proof (rule addTextLineRecursive.raw_induct[where
        P = "\<lambda>lib img text centerX baseY s h dpi position r.
               truetype_Parse_ok lib \<longrightarrow> (\<exists>k. fitsWidth lib img text dpi (candidate s k))",
        OF _ assms(1)], goal_cases)
    case (1 rec lib img t cX bY s h dpi pos r)
    show ?case
    proof
      assume ok: "truetype_Parse_ok lib"
      show "\<exists>k. fitsWidth lib img t dpi (candidate s k)"
      proof (cases "fitsWidth lib img t dpi s")
        case True
        then have "fitsWidth lib img t dpi (candidate s 0)" by simp
        then show ?thesis by (rule exI)
      next
        case False
        then have "rec lib img t cX bY (fsub s (fl (1 / 10)))
            (calculateFontHeight lib (fsub s (fl (1 / 10))) (go_int dpi)) dpi pos = Some r"
          using 1(2) ok by (simp add: fitsWidth_def)
        from 1(1)[OF this] ok obtain k
          where "fitsWidth lib img t dpi (candidate (fsub s (fl (1 / 10))) k)" by blast
        then have "fitsWidth lib img t dpi (candidate s (Suc k))" by simp
        then show ?thesis by (rule exI)
      qed
    qed
  qed
  with assms(2) show ?thesis by simp
qed

lemma addTextLineRecursive_None:
  assumes "truetype_Parse_ok lib" and "\<forall>k. \<not> fitsWidth lib img text dpi (candidate s k)"
  shows "addTextLineRecursive lib img text centerX baseY s h dpi position = None"
proof (cases "addTextLineRecursive lib img text centerX baseY s h dpi position")
  case (Some r)
  from addTextLineRecursive_Some_fits[OF this assms(1)] assms(2) show ?thesis by blast
qed simp

subsection \<open>The sequence of font sizes\<close>

lemma tenth_pos: "0 \<le> fl (1 / 10)"
  by (rule fl_nonneg) simp

lemma candidate_mono_arg: "s \<le> s' \<Longrightarrow> candidate s k \<le> candidate s' k"
proof (induction k arbitrary: s s')
  case (Suc k)
  have "fsub s (fl (1 / 10)) \<le> fsub s' (fl (1 / 10))"
    unfolding fsub_def using Suc.prems by (intro fl_mono) simp
  then show ?case by (simp add: Suc.IH)
qed simp

lemma candidate_Suc_le:
  assumes "fl s = s"
  shows "candidate s (Suc k) \<le> candidate s k"
proof -
  have "fl (s - fl (1 / 10)) \<le> fl s" using tenth_pos by (intro fl_mono) simp
  then have "fsub s (fl (1 / 10)) \<le> s" by (simp add: fsub_def assms)
  then show ?thesis using candidate_mono_arg by simp
qed

lemma candidate_antimono:
  assumes "fl s = s" and "j \<le> k"
  shows "candidate s k \<le> candidate s j"
  using candidate_Suc_le[OF assms(1)] assms(2) by (rule lift_Suc_antimono_le)

lemma candidate_enclosure:
  assumes "\<bar>s\<bar> + of_nat k * (fl (1 / 10) + 1 / 2 ^ 49) < 32"
  shows "\<bar>candidate s k - (s - of_nat k * fl (1 / 10))\<bar> \<le> of_nat k * (1 / 2 ^ 49)"
  using assms
proof (induction k arbitrary: s)
  case 0
  show ?case by simp
next
  case (Suc k)
  let ?c = "fl (1 / 10)"
  let ?e = "(1::rat) / 2 ^ 49"
  let ?s' = "fsub s ?c"
  have c: "0 \<le> ?c" by (rule tenth_pos)
  have e: "0 \<le> ?e" by simp
  have kk: "(0::rat) \<le> of_nat k * (?c + ?e)" using c by simp
  have "of_nat (Suc k) * (?c + ?e) = ?c + ?e + of_nat k * (?c + ?e)"
    by (simp only: of_nat_Suc distrib_right mult_1)
  then have b: "\<bar>s\<bar> + ?c + ?e + of_nat k * (?c + ?e) < 32"
    using Suc.prems by linarith
  have "\<bar>s - ?c\<bar> \<le> \<bar>s\<bar> + ?c" using c by linarith
  then have "\<bar>s - ?c\<bar> < 32" using b kk e by linarith
  then have err: "\<bar>?s' - (s - ?c)\<bar> \<le> ?e" unfolding fsub_def by (rule fl_error_32)
  then have "\<bar>?s'\<bar> \<le> \<bar>s\<bar> + ?c + ?e" using c by linarith
  then have "\<bar>?s'\<bar> + of_nat k * (?c + ?e) < 32" using b by linarith
  from Suc.IH[OF this]
  have ih: "\<bar>candidate ?s' k - (?s' - of_nat k * ?c)\<bar> \<le> of_nat k * ?e" .
  have "of_nat (Suc k) * ?c = ?c + of_nat k * ?c"
    by (simp only: of_nat_Suc distrib_right mult_1)
  then have "candidate s (Suc k) - (s - of_nat (Suc k) * ?c) =
      (candidate ?s' k - (?s' - of_nat k * ?c)) + (?s' - (s - ?c))"
    by simp
  then have "\<bar>candidate s (Suc k) - (s - of_nat (Suc k) * ?c)\<bar> \<le> of_nat k * ?e + ?e"
    using ih err by linarith
  moreover have "of_nat (Suc k) * ?e = of_nat k * ?e + ?e"
    by (simp only: of_nat_Suc distrib_right mult_1 add.commute)
  ultimately show ?case by simp
qed

section \<open>Unit conversion\<close>

text \<open>
  C8. One inch converts exactly at every accepted resolution: in binary64 arithmetic,
  with \<^verbatim>\<open>25.4\<close> the nearest binary64 value, \<open>mmToPixels 25.4 r = r\<close> for each
  \<open>r\<close> of \<open>standardDPIValues\<close>, that is for 203, 300 and 600.
\<close>

theorem mmToPixels_one_inch:
  "map (mmToPixels (fl (254 / 10))) standardDPIValues = standardDPIValues"
  by code_simp

section \<open>Text fitting\<close>

lemma getFontSize_eq:
  "getFontSize lib sz dpi w =
     (scaleFontByLabelWidth (getBaseFontSize sz) w,
      calculateFontHeight lib (scaleFontByLabelWidth (getBaseFontSize sz) w) dpi)"
  by (simp add: getFontSize_def Let_def)

lemma fitsWidth_iff:
  "fitsWidth lib img text dpi s \<longleftrightarrow> measureString lib s dpi text \<le> Dx (Bounds img) - 20"
  by (simp add: fitsWidth_def labelMarginPixels_def not_less)

lemma exampleLibrary_Parse_ok [simp]: "truetype_Parse_ok exampleLibrary"
  by (simp add: exampleLibrary_def)

text \<open>
  What \<open>addTextLine\<close> returns, with the built-in font parsed: an image exactly when some
  size of the sequence fits, and then the given image with the text drawn at the first
  size that fits.
\<close>

lemma addTextLine_Some_iff:
  assumes "truetype_Parse_ok lib"
  shows "addTextLine lib img text centerX baseY sz dpi position = Some img' \<longleftrightarrow>
     (\<exists>k. measureString lib
             (candidate (scaleFontByLabelWidth (getBaseFontSize sz) (Dx (Bounds img))) k)
             dpi text \<le> Dx (Bounds img) - 20 \<and>
          (\<forall>j<k. Dx (Bounds img) - 20 < measureString lib
             (candidate (scaleFontByLabelWidth (getBaseFontSize sz) (Dx (Bounds img))) j)
             dpi text) \<and>
          img' = drawText lib img text centerX baseY
             (candidate (scaleFontByLabelWidth (getBaseFontSize sz) (Dx (Bounds img))) k)
             (calculateFontHeight lib
                (candidate (scaleFontByLabelWidth (getBaseFontSize sz) (Dx (Bounds img))) k)
                (go_int dpi))
             dpi position Black)"
  (is "?L \<longleftrightarrow> (\<exists>k. ?fit k \<and> (\<forall>j<k. ?nofit j) \<and> ?drawn k)")
proof -
  let ?s0 = "scaleFontByLabelWidth (getBaseFontSize sz) (Dx (Bounds img))"
  let ?h0 = "calculateFontHeight lib ?s0 (go_int dpi)"
  have unfold: "addTextLine lib img text centerX baseY sz dpi position =
      addTextLineRecursive lib img text centerX baseY ?s0 ?h0 dpi position"
    by (simp add: addTextLine_def getFontSize_eq)
  have fit: "?fit k \<longleftrightarrow> fitsWidth lib img text dpi (candidate ?s0 k)" for k
    by (simp add: fitsWidth_iff)
  have nofit: "?nofit j \<longleftrightarrow> \<not> fitsWidth lib img text dpi (candidate ?s0 j)" for j
    by (simp add: fitsWidth_iff not_le)
  have run: "addTextLineRecursive lib img text centerX baseY ?s0 ?h0 dpi position =
      Some (drawText lib img text centerX baseY (candidate ?s0 k)
        (calculateFontHeight lib (candidate ?s0 k) (go_int dpi)) dpi position Black)"
    if "?fit k" and "\<forall>j<k. ?nofit j" for k
  proof -
    have "addTextLineRecursive lib img text centerX baseY ?s0 ?h0 dpi position =
      Some (drawText lib img text centerX baseY (candidate ?s0 k)
        (if k = 0 then ?h0 else calculateFontHeight lib (candidate ?s0 k) (go_int dpi))
        dpi position Black)"
      using that by (intro addTextLineRecursive_fit[OF assms]) (simp_all add: fit nofit)
    then show ?thesis by (cases k) simp_all
  qed
  show ?thesis
  proof
    assume L: ?L
    then have "addTextLineRecursive lib img text centerX baseY ?s0 ?h0 dpi position = Some img'"
      by (simp add: unfold)
    from addTextLineRecursive_Some_fits[OF this assms]
    obtain k0 where "fitsWidth lib img text dpi (candidate ?s0 k0)" by blast
    then have ex: "\<exists>k. ?fit k" using fit by blast
    define k where "k = (LEAST k. ?fit k)"
    have k: "?fit k" unfolding k_def using ex by (rule LeastI_ex)
    have least: "\<forall>j<k. ?nofit j"
      unfolding k_def using not_less_Least[of _ ?fit] by (auto simp add: not_le)
    from run[OF k least] L have "?drawn k" by (simp add: unfold)
    with k least show "\<exists>k. ?fit k \<and> (\<forall>j<k. ?nofit j) \<and> ?drawn k" by blast
  next
    assume "\<exists>k. ?fit k \<and> (\<forall>j<k. ?nofit j) \<and> ?drawn k"
    then obtain k where "?fit k" "\<forall>j<k. ?nofit j" "?drawn k" by blast
    with run[of k] show ?L by (simp add: unfold)
  qed
qed

subsection \<open>Values of the arithmetic\<close>

lemma tenth_value: "fl (1 / 10) = 3602879701896397 / 36028797018963968"
  by code_simp

lemma float64_203 [simp]: "float64_of_int 203 = 203"
  using float64_of_int_exact[of 203] by simp

lemma go_int_203 [simp]: "go_int 203 = 203"
  by (simp add: go_int_def)

lemma start_Medium_399:
  "scaleFontByLabelWidth (getBaseFontSize TextSizeMedium) 399 = 6749769941521531 / 562949953421312"
  by code_simp

lemma scaleFontByLabelWidth_fl [simp]: "fl (scaleFontByLabelWidth f w) = scaleFontByLabelWidth f w"
  by (simp add: scaleFontByLabelWidth_def Let_def)

lemma ladder_399:
  "2 / 25 \<le> candidate (6749769941521531 / 562949953421312) 119"
  "candidate (6749769941521531 / 562949953421312) 120 \<le> 0"
proof -
  let ?s = "6749769941521531 / 562949953421312 :: rat"
  have "\<bar>candidate ?s 119 - (?s - of_nat 119 * fl (1 / 10))\<bar> \<le> of_nat 119 * (1 / 2 ^ 49)"
    by (rule candidate_enclosure) (simp add: tenth_value)
  then have "?s - of_nat 119 * fl (1 / 10) - of_nat 119 * (1 / 2 ^ 49) \<le> candidate ?s 119"
    by linarith
  then show "2 / 25 \<le> candidate ?s 119"
    by (simp add: tenth_value)
  have "\<bar>candidate ?s 120 - (?s - of_nat 120 * fl (1 / 10))\<bar> \<le> of_nat 120 * (1 / 2 ^ 49)"
    by (rule candidate_enclosure) (simp add: tenth_value)
  then have "candidate ?s 120 \<le> ?s - of_nat 120 * fl (1 / 10) + of_nat 120 * (1 / 2 ^ 49)"
    by linarith
  then show "candidate ?s 120 \<le> 0"
    by (simp add: tenth_value)
qed

subsection \<open>The example rasterizer\<close>

lemma exampleLibrary_measure:
  "measureString exampleLibrary s dpi text =
     (int (length text) * (exampleScale s dpi div 2) + 63) div 64"
  by (simp add: exampleLibrary_def)

lemma exampleScale_mono:
  assumes "0 < s" and "s \<le> s'"
  shows "exampleScale s dpi \<le> exampleScale s' dpi"
proof -
  have "s * (if 0 < dpi then dpi else 72) \<le> s' * (if 0 < dpi then dpi else 72)"
    using assms(2) by (intro mult_right_mono) simp_all
  then show ?thesis
    using assms unfolding exampleScale_def by (intro floor_mono) (simp add: divide_right_mono)
qed

lemma exampleScale_nonpos: "s \<le> 0 \<Longrightarrow> exampleScale s dpi = exampleScale 12 dpi"
  by (simp add: exampleScale_def)

lemma exampleScale_ge:
  assumes "0 < d" and "d \<le> 12" and "d \<le> s \<or> s \<le> 0"
  shows "exampleScale d dpi \<le> exampleScale s dpi"
proof (cases "s \<le> 0")
  case True
  then show ?thesis using exampleScale_mono[OF assms(1,2)] by (simp add: exampleScale_nonpos)
next
  case False
  then show ?thesis using assms exampleScale_mono by auto
qed

lemma exampleLibrary_measure_mono:
  assumes "exampleScale a dpi \<le> exampleScale b dpi"
  shows "measureString exampleLibrary a dpi text \<le> measureString exampleLibrary b dpi text"
proof -
  have "exampleScale a dpi div 2 \<le> exampleScale b dpi div 2"
    using assms by (rule zdiv_mono1) simp
  then have "int (length text) * (exampleScale a dpi div 2)
      \<le> int (length text) * (exampleScale b dpi div 2)"
    by (intro mult_left_mono) simp_all
  then show ?thesis
    unfolding exampleLibrary_measure by (intro zdiv_mono1) simp_all
qed

lemma exampleLibrary_never_fits:
  assumes "fl s0 = s0" and "0 < d" and "d \<le> 12"
    and "d \<le> candidate s0 K" and "candidate s0 (Suc K) \<le> 0"
    and "Dx (Bounds img) - 20 < measureString exampleLibrary d dpi text"
  shows "\<not> fitsWidth exampleLibrary img text dpi (candidate s0 k)"
proof -
  have "d \<le> candidate s0 k \<or> candidate s0 k \<le> 0"
  proof (cases "k \<le> K")
    case True
    from candidate_antimono[OF assms(1) this] assms(4) show ?thesis by simp
  next
    case False
    then have "Suc K \<le> k" by simp
    from candidate_antimono[OF assms(1) this] assms(5) show ?thesis by simp
  qed
  then have "exampleScale d dpi \<le> exampleScale (candidate s0 k) dpi"
    by (rule exampleScale_ge[OF assms(2,3)])
  then have "measureString exampleLibrary d dpi text
      \<le> measureString exampleLibrary (candidate s0 k) dpi text"
    by (rule exampleLibrary_measure_mono)
  with assms(6) show ?thesis
    by (simp add: fitsWidth_def labelMarginPixels_def)
qed

lemma exampleScale_203_low: "exampleScale (2 / 25) 203 = 14"
  by code_simp

lemma addTextLine_Medium_399_None:
  assumes "Dx (Bounds img) = 399" and "4000 \<le> length text"
  shows "addTextLine exampleLibrary img text centerX baseY TextSizeMedium 203 position = None"
proof -
  let ?s = "6749769941521531 / 562949953421312 :: rat"
  have fl: "fl ?s = ?s" by (subst start_Medium_399[symmetric])+ simp
  have "int 4000 \<le> int (length text)" using assms(2) by (simp only: of_nat_le_iff)
  then have long: "Dx (Bounds img) - 20 < measureString exampleLibrary (2 / 25) 203 text"
    by (simp add: assms(1) exampleLibrary_measure exampleScale_203_low)
  have "\<not> fitsWidth exampleLibrary img text 203 (candidate ?s k)" for k
    using ladder_399 long by (intro exampleLibrary_never_fits[OF fl, where d = "2 / 25" and K = 119]) simp_all
  then show ?thesis
    unfolding addTextLine_def getFontSize_eq prod.case assms(1) start_Medium_399
    by (intro addTextLineRecursive_None) simp_all
qed

lemma createBlankLabel_Bounds [simp]: "Bounds (createBlankLabel w h) = Rect 0 0 w h"
  by (simp add: createBlankLabel_def Let_def)

lemma Dx_Rect_0 [simp]: "0 \<le> w \<Longrightarrow> Dx (Rect 0 y0 w y1) = w"
  by (simp add: Rect_def Dx_def Pt_def)

text \<open>
  C1. Every text line is to be drawn at a size whose measured width is within the label.
  The recursion has no bound, and a text that fits at no size of its sequence is never
  drawn: the call does not return. With the example rasterizer, as with the one of the
  package, a size that is not positive is taken for 12 points, so once the sequence has
  passed zero nothing fits any more. For 4000 characters \<open>W\<close> of size \<open>MEDIUM\<close> on a label
  399 pixels wide at 203 dpi the sequence starts at 11.99 and comes down to 0.09, where
  the text still measures more than the 379 pixels allowed, and is negative from its
  120th step on.
\<close>

theorem addTextLine_never_returns:
  "addTextLine exampleLibrary (createBlankLabel 399 239) (replicate 4000 CHR ''W'') 199 60
     TextSizeMedium 203 TextPositionAbove = None"
  by (rule addTextLine_Medium_399_None) simp_all

lemma mmToPixels_50_203: "mmToPixels 50 203 = 399"
  by code_simp

lemma mmToPixels_30_203: "mmToPixels 30 203 = 239"
  by code_simp

lemma calculateCode128Size_399_239: "calculateCode128Size 399 239 = Pt 379 119"
  by code_simp

lemma drawBarcodeOnLabel_Bounds [simp]: "Bounds (drawBarcodeOnLabel img bc r) = Bounds img"
  by (simp add: drawBarcodeOnLabel_def)

lemma renderLabel_Bounds:
  "renderLabel lib input bc = Inr (img, rect) \<Longrightarrow>
   Bounds img = Rect 0 0 (mmToPixels (Width input) (Dpi input)) (mmToPixels (Height input) (Dpi input))"
  by (auto simp add: renderLabel_def Let_def split: sum.splits)

text \<open>
  C2. The shrinking is to stop at a floor of 1.0 point and to report that the text cannot
  be fitted. The recursion has neither a floor nor an error: on the request below (a Code
  128 label of 50 by 30 mm at 203 dpi with one line of 5000 characters) it passes below
  1.0 point and below zero, and \<open>GenerateBarcode\<close> returns neither output nor error.
\<close>

theorem GenerateBarcode_never_returns:
  "GenerateBarcode exampleLibrary
     \<lparr>BarcodeData = ''LOC-A1'', BarcodeType = BarcodeTypeCode128, Width = 50, Height = 30,
      Dpi = 203,
      TextLines = [\<lparr>Text = replicate 5000 CHR ''M'', Position = TextPositionBelow,
                    Size = TextSizeMedium\<rparr>]\<rparr> = None"
  (is "GenerateBarcode exampleLibrary ?req = None")
proof -
  let ?bc = "\<lparr>bcBounds = Rect 0 0 101 1, bcData = ''LOC-A1''\<rparr>"
  have v: "validateInput ?req = None"
    by (simp add: validateInput_def validateDPI_def standardDPIValues_def
        validateBarcodeType_def)
  have e: "encodeBarcode exampleLibrary ?req = Inr ?bc"
    by (simp add: encodeBarcode_def encodeCode128_def exampleLibrary_def)
  have sc: "barcode_Scale exampleLibrary ?bc 379 119 = Inr (?bc\<lparr>bcBounds := Rect 0 0 379 119\<rparr>)"
    by (simp add: exampleLibrary_def Rect_def Dx_def Dy_def Pt_def)
  obtain img rect where r: "renderLabel exampleLibrary ?req ?bc = Inr (img, rect)"
    by (simp add: renderLabel_def Let_def mmToPixels_50_203 mmToPixels_30_203
        calculateBarcodeSize_def calculateCode128Size_399_239 scaleBarcodeToFit_def Pt_def sc)
  from renderLabel_Bounds[OF r] have dx: "Dx (Bounds img) = 399"
    by (simp add: mmToPixels_50_203)
  have "renderTextLines exampleLibrary img ?req rect = None"
    by (simp add: renderTextLines_def addTextLine_Medium_399_None[OF dx])
  then show ?thesis
    by (simp add: GenerateBarcode_def v e r)
qed

section \<open>Text size classes\<close>

lemma getFontSize_base_cong:
  "getBaseFontSize sz = getBaseFontSize sz' \<Longrightarrow> getFontSize lib sz dpi w = getFontSize lib sz' dpi w"
  by (simp add: getFontSize_def)

lemma addTextLine_base_cong:
  "getBaseFontSize sz = getBaseFontSize sz' \<Longrightarrow>
   addTextLine lib img text centerX baseY sz dpi position =
   addTextLine lib img text centerX baseY sz' dpi position"
  by (simp add: addTextLine_def getFontSize_base_cong[of sz sz'])

lemma calculateTextHeight_loop_cong:
  "list_all2 sameLine ls ls' \<Longrightarrow>
   calculateTextHeight_loop lib dpi tot ls = calculateTextHeight_loop lib dpi tot ls'"
proof (induction ls ls' arbitrary: tot rule: list_all2_induct)
  case Nil
  show ?case by simp
next
  case (Cons a as b bs)
  from Cons.hyps(1) have "getFontSize lib (Size a) dpi 200 = getFontSize lib (Size b) dpi 200"
    by (intro getFontSize_base_cong) (simp add: sameLine_def)
  then show ?case by (simp add: Cons.IH)
qed

lemma renderTextLines_loop_cong:
  "list_all2 sameLine ls ls' \<Longrightarrow>
   renderTextLines_loop lib img dpi rect ls = renderTextLines_loop lib img dpi rect ls'"
proof (induction ls ls' arbitrary: img rule: list_all2_induct)
  case Nil
  show ?case by simp
next
  case (Cons a as b bs)
  from Cons.hyps(1) have e: "Text a = Text b" "Position a = Position b"
    "getBaseFontSize (Size a) = getBaseFontSize (Size b)"
    by (simp_all add: sameLine_def)
  show ?case
    by (simp add: e(1,2) addTextLine_base_cong[OF e(3)] Cons.IH split: option.split)
qed

lemma BarcodeType_TextLines_update:
  "BarcodeType (input\<lparr>TextLines := ls\<rparr>) = BarcodeType input"
  by (cases input) simp

lemma GenerateBarcode_cong:
  assumes "list_all2 sameLine ls ls'"
  shows "GenerateBarcode lib (input\<lparr>TextLines := ls\<rparr>) = GenerateBarcode lib (input\<lparr>TextLines := ls'\<rparr>)"
proof -
  have th: "calculateTextHeight lib (input\<lparr>TextLines := ls\<rparr>) =
      calculateTextHeight lib (input\<lparr>TextLines := ls'\<rparr>)"
    by (simp add: calculateTextHeight_def calculateTextHeight_loop_cong[OF assms])
  have qr: "calculateQRSize lib (input\<lparr>TextLines := ls\<rparr>) w h =
      calculateQRSize lib (input\<lparr>TextLines := ls'\<rparr>) w h" for w h
    unfolding calculateQRSize_def th by (rule refl)
  have sz: "calculateBarcodeSize lib (input\<lparr>TextLines := ls\<rparr>) w h =
      calculateBarcodeSize lib (input\<lparr>TextLines := ls'\<rparr>) w h" for w h
    unfolding calculateBarcodeSize_def qr BarcodeType_TextLines_update by (rule refl)
  have rl: "renderLabel lib (input\<lparr>TextLines := ls\<rparr>) bc =
      renderLabel lib (input\<lparr>TextLines := ls'\<rparr>) bc" for bc
    unfolding renderLabel_def sz by simp
  have rt: "renderTextLines lib img (input\<lparr>TextLines := ls\<rparr>) rect =
      renderTextLines lib img (input\<lparr>TextLines := ls'\<rparr>) rect" for img rect
    by (simp add: renderTextLines_def renderTextLines_loop_cong[OF assms])
  have vi: "validateInput (input\<lparr>TextLines := ls\<rparr>) = validateInput (input\<lparr>TextLines := ls'\<rparr>)"
    unfolding validateInput_def BarcodeType_TextLines_update by simp
  have eb: "encodeBarcode lib (input\<lparr>TextLines := ls\<rparr>) = encodeBarcode lib (input\<lparr>TextLines := ls'\<rparr>)"
    unfolding encodeBarcode_def BarcodeType_TextLines_update by simp
  show ?thesis
    unfolding GenerateBarcode_def vi eb rl rt by (rule refl)
qed

lemma getBaseFontSize_default:
  "sz \<noteq> TextSizeSmall \<Longrightarrow> sz \<noteq> TextSizeMedium \<Longrightarrow> sz \<noteq> TextSizeLarge \<Longrightarrow>
   getBaseFontSize sz = 10"
  by (simp add: getBaseFontSize_def)

lemma getBaseFontSize_Medium: "getBaseFontSize TextSizeMedium = 10"
  by (simp add: getBaseFontSize_def TextSizeMedium_def TextSizeSmall_def)

text \<open>
  C10. A text size other than \<open>SMALL\<close>, \<open>MEDIUM\<close> and \<open>LARGE\<close> has the base font size
  10, that of \<open>MEDIUM\<close>, and is not rejected: a request with a line of such a size has the
  result, output or error, of the same request with that line set to \<open>MEDIUM\<close>.
\<close>

theorem unknown_TextSize_is_medium:
  assumes "sz \<noteq> TextSizeSmall" and "sz \<noteq> TextSizeMedium" and "sz \<noteq> TextSizeLarge"
  shows "getBaseFontSize sz = 10 \<and> getBaseFontSize sz = getBaseFontSize TextSizeMedium \<and>
     GenerateBarcode lib (input\<lparr>TextLines := before @ \<lparr>Text = t, Position = p, Size = sz\<rparr> # after\<rparr>) =
     GenerateBarcode lib
       (input\<lparr>TextLines := before @ \<lparr>Text = t, Position = p, Size = TextSizeMedium\<rparr> # after\<rparr>)"
proof -
  have b: "getBaseFontSize sz = 10" using assms by (rule getBaseFontSize_default)
  have refl: "list_all2 sameLine xs xs" for xs
    by (simp add: list_all2_same sameLine_def)
  have "list_all2 sameLine (before @ \<lparr>Text = t, Position = p, Size = sz\<rparr> # after)
      (before @ \<lparr>Text = t, Position = p, Size = TextSizeMedium\<rparr> # after)"
    by (intro list_all2_appendI list_all2_Cons[THEN iffD2] conjI refl)
       (simp add: sameLine_def b getBaseFontSize_Medium)
  from GenerateBarcode_cong[OF this] b show ?thesis
    by (simp add: getBaseFontSize_Medium)
qed

theorem unknown_TextSize_is_medium_witness:
  "''HUGE'' \<noteq> TextSizeSmall \<and> ''HUGE'' \<noteq> TextSizeMedium \<and> ''HUGE'' \<noteq> TextSizeLarge \<and>
   getBaseFontSize ''HUGE'' = 10 \<and>
   GenerateBarcode exampleLibrary
     \<lparr>BarcodeData = ''LOC-A1'', BarcodeType = BarcodeTypeQR, Width = 50, Height = 50, Dpi = 203,
      TextLines = [\<lparr>Text = ''Shelf 7'', Position = TextPositionBelow, Size = ''HUGE''\<rparr>]\<rparr> =
   GenerateBarcode exampleLibrary
     \<lparr>BarcodeData = ''LOC-A1'', BarcodeType = BarcodeTypeQR, Width = 50, Height = 50, Dpi = 203,
      TextLines = [\<lparr>Text = ''Shelf 7'', Position = TextPositionBelow, Size = TextSizeMedium\<rparr>]\<rparr>"
proof -
  have h: "''HUGE'' \<noteq> TextSizeSmall" "''HUGE'' \<noteq> TextSizeMedium" "''HUGE'' \<noteq> TextSizeLarge"
    by (simp_all add: TextSizeSmall_def TextSizeMedium_def TextSizeLarge_def)
  from unknown_TextSize_is_medium[OF h, where lib = exampleLibrary and before = "[]"
      and after = "[]" and t = "''Shelf 7''" and p = TextPositionBelow
      and input = "\<lparr>BarcodeData = ''LOC-A1'', BarcodeType = BarcodeTypeQR, Width = 50, Height = 50,
        Dpi = 203, TextLines = []\<rparr>"] h
  show ?thesis by simp
qed

end
